theory Spec2Isabelle
  imports Main "HOL-Library.Word"
begin

section \<open>JavaScript strings\<close>

text \<open>
  A JavaScript string is a sequence of UTF-16 code units; \<open>length\<close>, \<open>split\<close>,
  \<open>startsWith\<close>, \<open>slice\<close>, \<open>trim\<close> and the regular expressions of the source (none has
  the \<open>u\<close> flag) all work on code units. ASCII literals of the source are written
  \<open>js ''...''\<close>.
\<close>

type_synonym jsstring = "16 word list"

definition js :: "string \<Rightarrow> jsstring" where
  "js s = map of_char s"

definition newline :: "16 word" where
  "newline = 0x0A"

definition isWhiteSpace :: "16 word \<Rightarrow> bool" where
  \<comment> \<open>ECMAScript WhiteSpace and LineTerminator: what \<open>\s\<close> matches and \<open>trim\<close> strips.\<close>
  "isWhiteSpace c =
     (c = 0x09 \<or> c = 0x0A \<or> c = 0x0B \<or> c = 0x0C \<or> c = 0x0D \<or> c = 0x20 \<or> c = 0xA0
      \<or> c = 0x1680 \<or> (0x2000 \<le> c \<and> c \<le> 0x200A) \<or> c = 0x2028 \<or> c = 0x2029
      \<or> c = 0x202F \<or> c = 0x205F \<or> c = 0x3000 \<or> c = 0xFEFF)"

definition trim :: "jsstring \<Rightarrow> jsstring" where
  "trim s = rev (dropWhile isWhiteSpace (rev (dropWhile isWhiteSpace s)))"

definition startsWith :: "jsstring \<Rightarrow> jsstring \<Rightarrow> bool" where
  "startsWith s p = (take (length p) s = p)"

fun includes_str :: "jsstring \<Rightarrow> jsstring \<Rightarrow> bool" where
  "includes_str [] p = (p = [])"
| "includes_str (c # cs) p = (startsWith (c # cs) p \<or> includes_str cs p)"

fun split_on :: "16 word \<Rightarrow> jsstring \<Rightarrow> jsstring list" where
  \<comment> \<open>\<open>s.split(d)\<close> for a one-character separator: never an empty array.\<close>
  "split_on d [] = [[]]"
| "split_on d (c # cs) =
     (if c = d then [] # split_on d cs
      else (case split_on d cs of [] \<Rightarrow> [[c]] | l # ls \<Rightarrow> (c # l) # ls))"

fun join :: "jsstring \<Rightarrow> jsstring list \<Rightarrow> jsstring" where
  "join sep [] = []"
| "join sep [x] = x"
| "join sep (x # y # ys) = x @ sep @ join sep (y # ys)"


section \<open>Language detection (ChatApp.detectLanguageFromText)\<close>

definition devanagariRegex :: "16 word \<Rightarrow> bool" where
  \<comment> \<open>the character class from U+0900 to U+097F\<close>
  "devanagariRegex c = (0x0900 \<le> c \<and> c \<le> 0x097F)"

definition match_regex :: "(16 word \<Rightarrow> bool) \<Rightarrow> jsstring \<Rightarrow> jsstring list option" where
  \<comment> \<open>\<open>text.match(re)\<close> for a one-character class without the \<open>g\<close> flag and without
      groups: \<open>null\<close>, or an array holding the first match only.\<close>
  "match_regex re text = (case find re text of None \<Rightarrow> None | Some c \<Rightarrow> Some [[c]])"

definition detectLanguageFromText :: "jsstring \<Rightarrow> jsstring" where
  \<comment> \<open>The source compares the double \<open>devanagariCount / totalChars\<close> with the double
      \<open>0.3\<close>. For counts below \<open>2^50\<close> (every string a browser can hold) correctly
      rounded division makes that comparison agree with the exact one,
      \<open>10 * devanagariCount > 3 * totalChars\<close>, which is what is written here.\<close>
  "detectLanguageFromText text =
     (let devanagariCount = length (case match_regex devanagariRegex text of
                                      None \<Rightarrow> [] | Some m \<Rightarrow> m);
          totalChars = length (filter (\<lambda>c. \<not> isWhiteSpace c) text)
      in if totalChars = 0 then js ''en''
         else if devanagariCount = 0 then js ''en''
         else if 10 * devanagariCount > 3 * totalChars then js ''hi''
         else js ''en'')"

definition namaste_duniya :: jsstring where
  \<comment> \<open>the test vector of the specification, in code units\<close>
  "namaste_duniya =
     [0x928, 0x92E, 0x938, 0x94D, 0x924, 0x947, 0x20,
      0x926, 0x941, 0x928, 0x93F, 0x92F, 0x93E]"


section \<open>Voice chat (class VoiceChat)\<close>

record voice =
  voice_name :: jsstring
  voice_lang :: jsstring

record utterance =
  u_text :: jsstring
  u_voice :: voice
  u_lang :: jsstring

datatype syn_call = SynCancel | SynSpeak utterance

datatype rec_call = RecStart | RecStop

record recognizer =
  rec_lang :: "jsstring option"
  rec_calls :: "rec_call list"

text \<open>
  The fields of a \<open>VoiceChat\<close> object. \<open>recognition\<close> is \<open>None\<close> for \<open>null\<close>;
  the platform objects are represented by the calls made on them (\<open>rec_calls\<close>,
  \<open>syn_calls\<close>). \<open>voices\<close> is \<open>None\<close> while \<open>loadVoices\<close> has never run.
  \<open>voiceStatus\<close> is what \<open>showVoiceStatus\<close> last displayed (message and type), \<open>None\<close>
  when hidden; \<open>recordingUI\<close> is the \<open>recording\<close> class of the record button;
  \<open>statusTimers\<close> counts the pending one-second timeouts of \<open>handleTranscript\<close>.
  The page is taken to contain the elements these methods look up. The constant
  rate, pitch and volume of an utterance (all 1.0) are left out.
\<close>

record voicechat =
  recognition :: "recognizer option"
  has_synthesis :: bool
  syn_calls :: "syn_call list"
  isRecording :: bool
  currentUtterance :: "utterance option"
  voiceLanguage :: jsstring
  voiceOutputEnabled :: bool
  voices :: "voice list option"
  voiceStatus :: "(jsstring \<times> jsstring) option"
  recordingUI :: bool
  statusTimers :: nat

datatype exn = TypeError | SyntaxError | HttpError | NetworkError

definition loadVoices :: "voice list \<Rightarrow> voicechat \<Rightarrow> voicechat" where
  \<comment> \<open>the argument is what \<open>synthesis.getVoices()\<close> returns\<close>
  "loadVoices vs vc = vc\<lparr>voices := Some vs\<rparr>"

definition VoiceChat_new :: "bool \<Rightarrow> bool \<Rightarrow> voice list \<Rightarrow> exn + voicechat" where
  \<comment> \<open>constructor and \<open>init\<close>: \<open>supported\<close> says whether the window has a speech
      recognition class, \<open>syn\<close> whether \<open>window.speechSynthesis\<close> exists.\<close>
  "VoiceChat_new supported syn vs =
     (let vc = \<lparr>recognition = None, has_synthesis = syn, syn_calls = [],
                isRecording = False, currentUtterance = None,
                voiceLanguage = js ''en'', voiceOutputEnabled = True,
                voices = None, voiceStatus = None, recordingUI = False,
                statusTimers = 0\<rparr>
      in if \<not> supported then Inr vc
         else if \<not> syn then Inl TypeError
         else Inr (loadVoices vs
                (vc\<lparr>recognition := Some \<lparr>rec_lang = None, rec_calls = []\<rparr>\<rparr>)))"

definition getVoiceForLanguage :: "voicechat \<Rightarrow> jsstring \<Rightarrow> voice option" where
  "getVoiceForLanguage vc language =
     (case voices vc of
        None \<Rightarrow> None
      | Some [] \<Rightarrow> None
      | Some (v0 # vs) \<Rightarrow>
          (let langCode = (if language = js ''hi'' then js ''hi-IN'' else js ''en-US'');
               langPrefix = (if language = js ''hi'' then js ''hi'' else js ''en'')
           in case find (\<lambda>v. startsWith (voice_lang v) langCode
                             \<or> startsWith (voice_lang v) langPrefix) (v0 # vs) of
                Some v \<Rightarrow> Some v
              | None \<Rightarrow>
                  (case find (\<lambda>v. includes_str (voice_lang v) langPrefix) (v0 # vs) of
                     Some v \<Rightarrow> Some v
                   | None \<Rightarrow> Some v0)))"

definition setLanguage :: "jsstring \<Rightarrow> voicechat \<Rightarrow> voicechat" where
  "setLanguage language vc =
     (let vc1 = vc\<lparr>voiceLanguage := language\<rparr>
      in case recognition vc1 of
           None \<Rightarrow> vc1
         | Some r \<Rightarrow>
             vc1\<lparr>recognition :=
                   Some (r\<lparr>rec_lang :=
                     Some (if language = js ''hi'' then js ''hi-IN'' else js ''en-US'')\<rparr>)\<rparr>)"

definition showVoiceStatus :: "jsstring \<Rightarrow> jsstring \<Rightarrow> voicechat \<Rightarrow> voicechat" where
  "showVoiceStatus message type vc =
     (if message \<noteq> [] then vc\<lparr>voiceStatus := Some (message, type)\<rparr>
      else vc\<lparr>voiceStatus := None\<rparr>)"

definition stopRecording :: "voicechat \<Rightarrow> voicechat" where
  "stopRecording vc =
     (case recognition vc of
        None \<Rightarrow> vc
      | Some r \<Rightarrow>
          if isRecording vc
          then vc\<lparr>recognition := Some (r\<lparr>rec_calls := rec_calls r @ [RecStop]\<rparr>)\<rparr>
          else vc)"

definition startRecording :: "bool \<Rightarrow> voicechat \<Rightarrow> voicechat" where
  \<comment> \<open>\<open>throws\<close> is the platform's answer to \<open>recognition.start()\<close>, should it be called\<close>
  "startRecording throws vc =
     (case recognition vc of
        None \<Rightarrow>
          showVoiceStatus (js ''Speech recognition not supported in this browser'')
            (js ''error'') vc
      | Some r \<Rightarrow>
          if isRecording vc then stopRecording vc
          else (let vc1 = vc\<lparr>recognition :=
                               Some (r\<lparr>rec_calls := rec_calls r @ [RecStart]\<rparr>)\<rparr>
                in if throws
                   then showVoiceStatus (js ''Failed to start recording'') (js ''error'') vc1
                   else showVoiceStatus (js ''Listening...'') (js ''listening'') vc1))"

definition handleTranscript :: "jsstring \<Rightarrow> bool \<Rightarrow> voicechat \<Rightarrow> voicechat" where
  \<comment> \<open>the effect on the \<open>VoiceChat\<close> object; the write to the message box is part of
      the application state below\<close>
  "handleTranscript transcript isFinal vc =
     (if isFinal
      then (showVoiceStatus (js ''Transcript ready'') (js ''success'') vc)
             \<lparr>statusTimers := Suc (statusTimers vc)\<rparr>
      else showVoiceStatus (js ''Listening: '' @ transcript) (js ''listening'') vc)"

definition handleRecognitionError :: "jsstring \<Rightarrow> voicechat \<Rightarrow> voicechat" where
  "handleRecognitionError error vc =
     (let message =
            (if error = js ''no-speech'' then js ''No speech detected''
             else if error = js ''audio-capture'' then js ''Microphone not found''
             else if error = js ''not-allowed'' then js ''Microphone permission denied''
             else if error = js ''network'' then js ''Network error''
             else js ''Recording error'')
      in showVoiceStatus message (js ''error'') vc)"

definition speak :: "jsstring \<Rightarrow> jsstring option \<Rightarrow> voicechat \<Rightarrow> voicechat" where
  \<comment> \<open>\<open>language\<close> is \<open>None\<close> for \<open>null\<close>; \<open>language || this.voiceLanguage\<close> also
      replaces the empty string\<close>
  "speak text language vc =
     (if \<not> voiceOutputEnabled vc \<or> \<not> has_synthesis vc then vc
      else
        (let vc1 = (if currentUtterance vc \<noteq> None
                    then vc\<lparr>syn_calls := syn_calls vc @ [SynCancel]\<rparr> else vc);
             lang = (case language of
                       None \<Rightarrow> voiceLanguage vc1
                     | Some l \<Rightarrow> if l = [] then voiceLanguage vc1 else l)
         in case getVoiceForLanguage vc1 lang of
              None \<Rightarrow> vc1
            | Some v \<Rightarrow>
                (let u = \<lparr>u_text = text, u_voice = v,
                          u_lang = (if lang = js ''hi'' then js ''hi-IN'' else js ''en-US'')\<rparr>
                 in vc1\<lparr>currentUtterance := Some u,
                        syn_calls := syn_calls vc1 @ [SynSpeak u]\<rparr>)))"

definition stopSpeaking :: "voicechat \<Rightarrow> voicechat" where
  "stopSpeaking vc =
     (if has_synthesis vc
      then vc\<lparr>syn_calls := syn_calls vc @ [SynCancel], currentUtterance := None\<rparr>
      else vc)"

definition setVoiceOutputEnabled :: "bool \<Rightarrow> voicechat \<Rightarrow> voicechat" where
  "setVoiceOutputEnabled enabled vc =
     (let vc1 = vc\<lparr>voiceOutputEnabled := enabled\<rparr>
      in if \<not> enabled then stopSpeaking vc1 else vc1)"

text \<open>
  What can happen to a \<open>VoiceChat\<close> object: calls of its methods, and the platform
  callbacks installed by \<open>init\<close> (only when \<open>recognition\<close> was created) and by \<open>speak\<close>
  (only while an utterance exists).
\<close>

datatype vc_event =
    CallStartRecording bool
  | CallStopRecording
  | CallSetLanguage jsstring
  | CallSpeak jsstring "jsstring option"
  | CallStopSpeaking
  | CallSetVoiceOutputEnabled bool
  | RecOnStart
  | RecOnResult jsstring bool
  | RecOnError jsstring
  | RecOnEnd
  | VoicesChanged "voice list"
  | UtteranceEnd
  | UtteranceError
  | StatusTimerFired

fun vc_step :: "vc_event \<Rightarrow> voicechat \<Rightarrow> voicechat" where
  "vc_step (CallStartRecording throws) vc = startRecording throws vc"
| "vc_step CallStopRecording vc = stopRecording vc"
| "vc_step (CallSetLanguage l) vc = setLanguage l vc"
| "vc_step (CallSpeak t l) vc = speak t l vc"
| "vc_step CallStopSpeaking vc = stopSpeaking vc"
| "vc_step (CallSetVoiceOutputEnabled b) vc = setVoiceOutputEnabled b vc"
| "vc_step RecOnStart vc =
     (if recognition vc = None then vc
      else vc\<lparr>isRecording := True, recordingUI := True\<rparr>)"
| "vc_step (RecOnResult t f) vc =
     (if recognition vc = None then vc else handleTranscript t f vc)"
| "vc_step (RecOnError e) vc =
     (if recognition vc = None then vc
      else stopRecording (handleRecognitionError e vc))"
| "vc_step RecOnEnd vc =
     (if recognition vc = None then vc
      else vc\<lparr>isRecording := False, recordingUI := False\<rparr>)"
| "vc_step (VoicesChanged vs) vc =
     (if recognition vc = None then vc else loadVoices vs vc)"
| "vc_step UtteranceEnd vc = vc\<lparr>currentUtterance := None\<rparr>"
| "vc_step UtteranceError vc = vc\<lparr>currentUtterance := None\<rparr>"
| "vc_step StatusTimerFired vc =
     (if statusTimers vc = 0 then vc
      else (showVoiceStatus [] [] vc)\<lparr>statusTimers := statusTimers vc - 1\<rparr>)"

fun vc_run :: "vc_event list \<Rightarrow> voicechat \<Rightarrow> voicechat" where
  "vc_run [] vc = vc"
| "vc_run (e # es) vc = vc_run es (vc_step e vc)"

section \<open>Decoded stream records\<close>

text \<open>
  What \<open>JSON.parse\<close> returns. Numbers are IEEE doubles in the source; their type is
  a parameter here, and the platform operations on them that the source uses come with
  the platform record below. An object is the list of its own properties, looked up by
  the first entry for a key. A JavaScript value that may be \<open>undefined\<close> is a
  \<open>json option\<close>.
\<close>

datatype 'n json =
    JNull
  | JBool bool
  | JNum 'n
  | JStr jsstring
  | JArr "'n json list"
  | JObj "(jsstring \<times> 'n json) list"

record 'n platform =
  JSON_parse :: "jsstring \<Rightarrow> 'n json option"   \<comment> \<open>\<open>None\<close>: a SyntaxError is thrown\<close>
  Number_toString :: "'n \<Rightarrow> jsstring"
  Number_toFixed2 :: "'n \<Rightarrow> jsstring"          \<comment> \<open>\<open>n.toFixed(2)\<close>\<close>
  Number_truthy :: "'n \<Rightarrow> bool"

datatype ('a, 's) res = Normal 'a | Threw exn 's
  \<comment> \<open>\<open>Threw e s\<close>: an exception was thrown, leaving the state \<open>s\<close>\<close>

fun get_prop :: "'n json option \<Rightarrow> jsstring \<Rightarrow> exn + 'n json option" where
  \<comment> \<open>\<open>v.k\<close> for the property names the source reads (type, content, state, metrics,
      message, latency): none of them is defined on a primitive or on an array\<close>
  "get_prop None k = Inl TypeError"
| "get_prop (Some JNull) k = Inl TypeError"
| "get_prop (Some (JObj kvs)) k = Inr (map_of kvs k)"
| "get_prop (Some v) k = Inr None"

fun truthy :: "'n platform \<Rightarrow> 'n json option \<Rightarrow> bool" where
  "truthy P None = False"
| "truthy P (Some JNull) = False"
| "truthy P (Some (JBool b)) = b"
| "truthy P (Some (JNum n)) = Number_truthy P n"
| "truthy P (Some (JStr s)) = (s \<noteq> [])"
| "truthy P (Some (JArr xs)) = True"
| "truthy P (Some (JObj kvs)) = True"

fun ToString :: "'n platform \<Rightarrow> 'n json \<Rightarrow> jsstring" where
  "ToString P JNull = js ''null''"
| "ToString P (JBool b) = (if b then js ''true'' else js ''false'')"
| "ToString P (JNum n) = Number_toString P n"
| "ToString P (JStr s) = s"
| "ToString P (JArr xs) =
     join (js '','') (map (\<lambda>x. if x = JNull then [] else ToString P x) xs)"
| "ToString P (JObj kvs) = js ''[object Object]''"

definition str_concat :: "'n platform \<Rightarrow> 'n json option \<Rightarrow> jsstring" where
  \<comment> \<open>the string that \<open>s + v\<close> appends to a string \<open>s\<close>\<close>
  "str_concat P v = (case v of None \<Rightarrow> js ''undefined'' | Some x \<Rightarrow> ToString P x)"


section \<open>The stream-reading loop of ChatApp.sendMessage\<close>

definition feed :: "jsstring \<Rightarrow> jsstring \<Rightarrow> jsstring list \<times> jsstring" where
  \<comment> \<open>\<open>buffer += chunk; lines = buffer.split('\n'); buffer = lines.pop() || ''\<close>:
      the lines left to process and the new buffer\<close>
  "feed buffer chunk =
     (let lines = split_on newline (buffer @ chunk)
      in case rev lines of
           [] \<Rightarrow> ([], [])
         | l # r \<Rightarrow> (rev r, if l = [] then [] else l))"

fun process_lines ::
  "'n platform \<Rightarrow> ('n json \<Rightarrow> 's \<Rightarrow> ('s, 's) res) \<Rightarrow> jsstring list \<Rightarrow> 's \<Rightarrow> ('s, 's) res"
where
  \<comment> \<open>the \<open>for\<close> loop over the lines; \<open>h\<close> is \<open>handleStreamEvent\<close>\<close>
  "process_lines P h [] s = Normal s"
| "process_lines P h (line # ls) s =
     (if startsWith line (js ''data: '')
      then (case JSON_parse P (drop 6 line) of
              None \<Rightarrow> Threw SyntaxError s
            | Some d \<Rightarrow>
                (case h d s of
                   Threw e s' \<Rightarrow> Threw e s'
                 | Normal s' \<Rightarrow> process_lines P h ls s'))
      else process_lines P h ls s)"

definition read_chunk ::
  "'n platform \<Rightarrow> ('n json \<Rightarrow> 's \<Rightarrow> ('s, 's) res) \<Rightarrow> jsstring \<Rightarrow> jsstring \<Rightarrow> 's
     \<Rightarrow> (jsstring \<times> 's, 's) res"
where
  \<comment> \<open>one round of the \<open>while\<close> loop, for a chunk that \<open>reader.read()\<close> delivered
      (as the text the streaming decoder makes of it)\<close>
  "read_chunk P h chunk buffer s =
     (case feed buffer chunk of
        (lines, buffer') \<Rightarrow>
          (case process_lines P h lines s of
             Threw e s' \<Rightarrow> Threw e s'
           | Normal s' \<Rightarrow> Normal (buffer', s')))"

fun read_loop ::
  "'n platform \<Rightarrow> ('n json \<Rightarrow> 's \<Rightarrow> ('s, 's) res) \<Rightarrow> jsstring list \<Rightarrow> jsstring \<Rightarrow> 's
     \<Rightarrow> ('s, 's) res"
where
  \<comment> \<open>the whole \<open>while\<close> loop over the chunks of a stream that then reports \<open>done\<close>\<close>
  "read_loop P h [] buffer s = Normal s"
| "read_loop P h (chunk # chunks) buffer s =
     (case read_chunk P h chunk buffer s of
        Threw e s' \<Rightarrow> Threw e s'
      | Normal (buffer', s') \<Rightarrow> read_loop P h chunks buffer' s')"

definition decoded_frames :: "'n platform \<Rightarrow> jsstring list \<Rightarrow> ('n json list, 'n json list) res" where
  \<comment> \<open>the records the loop hands to its handler, in order: the loop run with a handler
      that only notes its argument\<close>
  "decoded_frames P chunks = read_loop P (\<lambda>d acc. Normal (acc @ [d])) chunks [] []"

definition well_formed :: "'n platform \<Rightarrow> jsstring \<Rightarrow> bool" where
  \<comment> \<open>every complete line of the stream that carries the marker parses\<close>
  "well_formed P stream =
     list_all (\<lambda>l. \<not> startsWith l (js ''data: '') \<or> JSON_parse P (drop 6 l) \<noteq> None)
       (fst (feed [] stream))"

section \<open>The chat application (class ChatApp)\<close>

text \<open>
  The state of a \<open>ChatApp\<close> object together with the parts of the page it writes:
  \<open>inputValue\<close> is the value of the message box; \<open>messages\<close> lists the message
  elements of the page, each with its role and the text of its content element;
  \<open>avatarClass\<close> and \<open>avatarStateText\<close> are what \<open>setAvatarState\<close> writes;
  \<open>statusEls\<close> maps the id of a status element of the page to its text (\<open>None\<close>:
  the page has no such element); \<open>requests\<close> lists the bodies (message, session id) of
  the chat requests issued; \<open>idleTimers\<close> counts the pending two-second timeouts.
  \<open>avatarLog\<close> and \<open>speakLog\<close> are history: the arguments of every call of
  \<open>setAvatarState\<close> and of every call \<open>voiceChat.speak(text, lang)\<close> made by the
  application, in order.

  \<open>sendMessage\<close> is asynchronous. \<open>pending\<close> is where its running activation is
  suspended: \<open>AwaitFetch el\<close> at \<open>await fetch\<close>, \<open>AwaitRead buffer el\<close> at
  \<open>await reader.read()\<close>, with the local \<open>buffer\<close>; \<open>el\<close> is the position in
  \<open>messages\<close> of the assistant element the activation created (its
  \<open>contentElement\<close>). The page is taken to contain the message box, the message
  container and the avatar elements. Session loading, the health check and the model
  list are not part of this model; \<open>sessionId\<close> is whatever they left.
\<close>

datatype phase = NotRunning | AwaitFetch nat | AwaitRead jsstring nat

record app =
  inputValue :: jsstring
  messages :: "(jsstring \<times> jsstring) list"
  avatarClass :: "jsstring list"
  avatarStateText :: jsstring
  avatarLog :: "jsstring list"
  statusEls :: "jsstring \<Rightarrow> jsstring option"
  sessionId :: "jsstring option"
  currentMessage :: jsstring
  isStreaming :: bool
  voiceChat :: "voicechat option"
  speakLog :: "(jsstring \<times> jsstring) list"
  requests :: "(jsstring \<times> jsstring option) list"
  idleTimers :: nat
  pending :: phase

definition ChatApp_new ::
  "jsstring \<Rightarrow> (jsstring \<Rightarrow> jsstring option) \<Rightarrow> voicechat option \<Rightarrow> jsstring option
     \<Rightarrow> jsstring option \<Rightarrow> app"
where
  \<comment> \<open>constructor and \<open>init\<close>. \<open>av0\<close> and \<open>stat0\<close> are the avatar text and the status
      elements of the page as loaded; \<open>vc\<close> is the \<open>VoiceChat\<close> object, if that class
      is defined; \<open>sel\<close> is the value of the language selector, if the page has one;
      \<open>sid\<close> the session id.\<close>
  "ChatApp_new av0 stat0 vc sel sid =
     \<lparr>inputValue = [], messages = [], avatarClass = [js ''avatar''],
      avatarStateText = av0, avatarLog = [], statusEls = stat0, sessionId = sid,
      currentMessage = [], isStreaming = False,
      voiceChat = (case vc of
                     None \<Rightarrow> None
                   | Some v \<Rightarrow> (case sel of None \<Rightarrow> Some v | Some l \<Rightarrow> Some (setLanguage l v))),
      speakLog = [], requests = [], idleTimers = 0, pending = NotRunning\<rparr>"

definition addMessage :: "jsstring \<Rightarrow> jsstring \<Rightarrow> app \<Rightarrow> app" where
  "addMessage content role s = s\<lparr>messages := messages s @ [(role, content)]\<rparr>"

definition setContent :: "nat \<Rightarrow> jsstring \<Rightarrow> app \<Rightarrow> app" where
  \<comment> \<open>\<open>contentElement.textContent = text\<close>\<close>
  "setContent el text s =
     s\<lparr>messages := (messages s)[el := (fst (messages s ! el), text)]\<rparr>"

definition setAvatarState :: "jsstring \<Rightarrow> app \<Rightarrow> app" where
  "setAvatarState state s =
     s\<lparr>avatarClass := (if state \<noteq> js ''idle'' then [js ''avatar'', state] else [js ''avatar'']),
       avatarStateText := state,
       avatarLog := avatarLog s @ [state]\<rparr>"

definition updateStatus :: "jsstring \<Rightarrow> jsstring \<Rightarrow> app \<Rightarrow> app" where
  "updateStatus elementId v s =
     (case statusEls s elementId of
        None \<Rightarrow> s
      | Some old \<Rightarrow> s\<lparr>statusEls := (statusEls s)(elementId \<mapsto> v)\<rparr>)"

definition on_complete_metrics :: "'n platform \<Rightarrow> 'n json option \<Rightarrow> app \<Rightarrow> (app, app) res" where
  \<comment> \<open>\<open>if (event.metrics) this.updateStatus('latency', `${event.metrics.latency.toFixed(2)}s`)\<close>:
      \<open>toFixed\<close> exists on numbers only\<close>
  "on_complete_metrics P m s =
     (if truthy P m
      then (case get_prop m (js ''latency'') of
              Inl e \<Rightarrow> Threw e s
            | Inr (Some (JNum n)) \<Rightarrow>
                Normal (updateStatus (js ''latency'') (Number_toFixed2 P n @ js ''s'') s)
            | Inr other \<Rightarrow> Threw TypeError s)
      else Normal s)"

definition speak_complete :: "app \<Rightarrow> app" where
  \<comment> \<open>\<open>if (this.voiceChat && this.currentMessage) { ... speak ... }\<close>\<close>
  "speak_complete s =
     (case voiceChat s of
        None \<Rightarrow> s
      | Some vc \<Rightarrow>
          if currentMessage s \<noteq> []
          then (let detectedLang = detectLanguageFromText (currentMessage s)
                in s\<lparr>voiceChat := Some (speak (currentMessage s) (Some detectedLang) vc),
                     speakLog := speakLog s @ [(currentMessage s, detectedLang)]\<rparr>)
          else s)"

definition handleStreamEvent :: "'n platform \<Rightarrow> 'n json \<Rightarrow> nat \<Rightarrow> app \<Rightarrow> (app, app) res" where
  "handleStreamEvent P event contentElement s =
     (case get_prop (Some event) (js ''type'') of
        Inl e \<Rightarrow> Threw e s
      | Inr t \<Rightarrow>
          if t = Some (JStr (js ''token''))
          then (case get_prop (Some event) (js ''content'') of
                  Inl e \<Rightarrow> Threw e s
                | Inr c \<Rightarrow>
                    (let s1 = s\<lparr>currentMessage := currentMessage s @ str_concat P c\<rparr>;
                         s2 = setContent contentElement (currentMessage s1) s1
                     in Normal (setAvatarState (js ''streaming'') s2)))
          else if t = Some (JStr (js ''status''))
          then (case get_prop (Some event) (js ''state'') of
                  Inl e \<Rightarrow> Threw e s
                | Inr st \<Rightarrow>
                    if st = Some (JStr (js ''thinking''))
                    then Normal (setAvatarState (js ''thinking'') s)
                    else if st = Some (JStr (js ''complete''))
                    then (let s1 = setAvatarState (js ''speaking'') s
                          in case get_prop (Some event) (js ''metrics'') of
                               Inl e \<Rightarrow> Threw e s1
                             | Inr m \<Rightarrow>
                                 (case on_complete_metrics P m s1 of
                                    Threw e s2 \<Rightarrow> Threw e s2
                                  | Normal s2 \<Rightarrow>
                                      (let s3 = speak_complete s2
                                       in Normal (s3\<lparr>idleTimers := Suc (idleTimers s3)\<rparr>))))
                    else if st = Some (JStr (js ''error''))
                    then (let s1 = setAvatarState (js ''error'') s
                          in case get_prop (Some event) (js ''message'') of
                               Inl e \<Rightarrow> Threw e s1
                             | Inr msg \<Rightarrow>
                                 Normal (setContent contentElement
                                   (currentMessage s1 @ [newline, newline] @ js ''[Error: ''
                                      @ str_concat P msg @ js '']'') s1))
                    else Normal s)
          else Normal s)"

definition sendMessage :: "app \<Rightarrow> app" where
  \<comment> \<open>a call of \<open>sendMessage\<close>, up to its first \<open>await\<close>\<close>
  "sendMessage s =
     (let message = trim (inputValue s)
      in if message = [] \<or> isStreaming s then s
         else
           (let s1 = s\<lparr>inputValue := []\<rparr>;
                s2 = addMessage message (js ''user'') s1;
                s3 = s2\<lparr>isStreaming := True, currentMessage := []\<rparr>;
                s4 = setAvatarState (js ''thinking'') s3;
                el = length (messages s4);
                s5 = s4\<lparr>messages := messages s4 @ [(js ''assistant'', [])]\<rparr>
            in s5\<lparr>requests := requests s5 @ [(message, sessionId s5)],
                   pending := AwaitFetch el\<rparr>))"

definition sendMessage_catch :: "app \<Rightarrow> app" where
  "sendMessage_catch s =
     setAvatarState (js ''error'')
       (addMessage (js ''Error: Failed to send message. Please try again.'')
          (js ''assistant'') s)"

definition sendMessage_finally :: "app \<Rightarrow> app" where
  \<comment> \<open>the \<open>finally\<close> block, after which the activation is over\<close>
  "sendMessage_finally s =
     (setAvatarState (js ''idle'') (s\<lparr>isStreaming := False\<rparr>))\<lparr>pending := NotRunning\<rparr>"

text \<open>
  What can happen to the application: the user edits the message box or triggers
  \<open>sendMessage\<close>; the promise the running activation awaits settles (\<open>FetchResolved ok
  body\<close> with \<open>response.ok\<close> and whether the response has a body, \<open>FetchRejected\<close>,
  \<open>ReadChunk text\<close>, \<open>ReadDone\<close>, \<open>ReadRejected\<close>); a two-second timeout fires;
  something happens to the \<open>VoiceChat\<close> object. A settlement that the suspended
  activation does not await cannot occur and leaves the state as it is.
\<close>

datatype app_event =
    SetInput jsstring
  | CallSendMessage
  | FetchResolved bool bool
  | FetchRejected
  | ReadChunk jsstring
  | ReadDone
  | ReadRejected
  | IdleTimerFired
  | Voice vc_event

fun app_step :: "'n platform \<Rightarrow> app_event \<Rightarrow> app \<Rightarrow> app" where
  "app_step P (SetInput t) s = s\<lparr>inputValue := t\<rparr>"
| "app_step P CallSendMessage s = sendMessage s"
| "app_step P (FetchResolved ok body) s =
     (case pending s of
        AwaitFetch el \<Rightarrow>
          if \<not> ok then sendMessage_finally (sendMessage_catch s)
          else if \<not> body then sendMessage_finally (sendMessage_catch s)
          else s\<lparr>pending := AwaitRead [] el\<rparr>
      | other \<Rightarrow> s)"
| "app_step P FetchRejected s =
     (case pending s of
        AwaitFetch el \<Rightarrow> sendMessage_finally (sendMessage_catch s)
      | other \<Rightarrow> s)"
| "app_step P (ReadChunk chunk) s =
     (case pending s of
        AwaitRead buffer el \<Rightarrow>
          (case read_chunk P (\<lambda>d. handleStreamEvent P d el) chunk buffer s of
             Threw e s' \<Rightarrow> sendMessage_finally (sendMessage_catch s')
           | Normal (buffer', s') \<Rightarrow> s'\<lparr>pending := AwaitRead buffer' el\<rparr>)
      | other \<Rightarrow> s)"
| "app_step P ReadDone s =
     (case pending s of
        AwaitRead buffer el \<Rightarrow> sendMessage_finally s
      | other \<Rightarrow> s)"
| "app_step P ReadRejected s =
     (case pending s of
        AwaitRead buffer el \<Rightarrow> sendMessage_finally (sendMessage_catch s)
      | other \<Rightarrow> s)"
| "app_step P IdleTimerFired s =
     (if idleTimers s = 0 then s
      else (setAvatarState (js ''idle'') s)\<lparr>idleTimers := idleTimers s - 1\<rparr>)"
| "app_step P (Voice e) s =
     (case voiceChat s of
        None \<Rightarrow> s
      | Some vc \<Rightarrow>
          (let s1 = s\<lparr>voiceChat := Some (vc_step e vc)\<rparr>
           in case e of
                RecOnResult t isFinal \<Rightarrow>
                  if isFinal \<and> recognition vc \<noteq> None then s1\<lparr>inputValue := trim t\<rparr> else s1
              | other \<Rightarrow> s1))"

fun app_run :: "'n platform \<Rightarrow> app_event list \<Rightarrow> app \<Rightarrow> app" where
  "app_run P [] s = s"
| "app_run P (e # es) s = app_run P es (app_step P e s)"

definition active_states :: "jsstring set" where
  \<comment> \<open>the avatar texts of Thinking, StreamingText and Speaking\<close>
  "active_states = {js ''thinking'', js ''streaming'', js ''speaking''}"

section \<open>One activation at a time\<close>

definition turn_inv :: "app \<Rightarrow> bool" where
  \<comment> \<open>while \<open>isStreaming\<close> is false, no activation of \<open>sendMessage\<close> is suspended and
      the avatar shows none of the active states\<close>
  "turn_inv s =
     (isStreaming s \<or> (avatarStateText s \<notin> active_states \<and> pending s = NotRunning))"


definition with_pending :: "phase \<Rightarrow> (app, app) res \<Rightarrow> (app, app) res" where
  \<comment> \<open>an outcome, with the \<open>pending\<close> field of its state replaced\<close>
  "with_pending p r =
     (case r of
        Normal s \<Rightarrow> Normal (s\<lparr>pending := p\<rparr>)
      | Threw e s \<Rightarrow> Threw e (s\<lparr>pending := p\<rparr>))"


section \<open>Recording needs a recognition object\<close>

definition rec_inv :: "voicechat \<Rightarrow> bool" where
  "rec_inv vc = (isRecording vc = False \<or> recognition vc \<noteq> None)"


section \<open>Stream records and sample values\<close>

text \<open>
  The server that writes the stream is not among the sources; the records it sends are
  taken from the wire format of the specification, as \<open>JSON.parse\<close> returns them: a
  token with its content, and the status \<open>complete\<close> with or without the latency
  metric.
\<close>

definition token_frame :: "jsstring \<Rightarrow> 'n json" where
  \<comment> \<open>Modelled from the spec: the token record of the server's stream,
      \<open>{"type":"token","content":c}\<close>\<close>
  "token_frame c = JObj [(js ''type'', JStr (js ''token'')), (js ''content'', JStr c)]"

definition complete_frame :: "'n option \<Rightarrow> 'n json" where
  \<comment> \<open>Modelled from the spec: the completion record of the server's stream,
      \<open>{"type":"status","state":"complete"}\<close>, with \<open>"metrics":{"latency":n}\<close>
      when \<open>lat\<close> is \<open>Some n\<close>\<close>
  "complete_frame lat =
     JObj ([(js ''type'', JStr (js ''status'')), (js ''state'', JStr (js ''complete''))]
           @ (case lat of
                None \<Rightarrow> []
              | Some n \<Rightarrow> [(js ''metrics'', JObj [(js ''latency'', JNum n)])]))"

text \<open>
  Sample values for the examples below: three payloads and the beginning of one; a
  platform whose numbers are hundredths and whose parser knows these three payloads and
  rejects every other text; an English voice; a \<open>VoiceChat\<close> object as its
  constructor leaves it in a browser with speech recognition, speech synthesis and that
  one voice.
\<close>

definition payload_hi :: jsstring where
  \<open>payload_hi = js ''{"type":"token","content":"Hi"}''\<close>

definition payload_there :: jsstring where
  \<open>payload_there = js ''{"type":"token","content":" there"}''\<close>

definition payload_complete :: jsstring where
  \<open>payload_complete = js ''{"type":"status","state":"complete","metrics":{"latency":0.42}}''\<close>

definition payload_cut :: jsstring where
  \<open>payload_cut = js ''{"type":"token","content":''\<close>

definition sample_platform :: "nat platform" where
  "sample_platform =
     \<lparr>JSON_parse = (\<lambda>p. if p = payload_hi then Some (token_frame (js ''Hi''))
                         else if p = payload_there then Some (token_frame (js '' there''))
                         else if p = payload_complete then Some (complete_frame (Some 42))
                         else None),
      Number_toString = (\<lambda>n. if n = 42 then js ''0.42'' else js ''0''),
      Number_toFixed2 = (\<lambda>n. if n = 42 then js ''0.42'' else js ''0.00''),
      Number_truthy = (\<lambda>n. n \<noteq> 0)\<rparr>"

definition en_voice :: voice where
  "en_voice = \<lparr>voice_name = js ''English'', voice_lang = js ''en-US''\<rparr>"

definition sample_voicechat :: voicechat where
  "sample_voicechat =
     \<lparr>recognition = Some \<lparr>rec_lang = None, rec_calls = []\<rparr>, has_synthesis = True,
      syn_calls = [], isRecording = False, currentUtterance = None,
      voiceLanguage = js ''en'', voiceOutputEnabled = True, voices = Some [en_voice],
      voiceStatus = None, recordingUI = False, statusTimers = 0\<rparr>"


definition sample_reading :: app where
  \<comment> \<open>the application after the user sent Hello and the response arrived, before the
      first chunk\<close>
  "sample_reading =
     app_run sample_platform [SetInput (js ''Hello''), CallSendMessage, FetchResolved True True]
       (ChatApp_new (js ''idle'') [js ''latency'' \<mapsto> js ''-''] (Some sample_voicechat) None None)"


definition sample_chunks :: "jsstring list" where
  \<comment> \<open>three records and an empty line, cut inside the second marker\<close>
  "sample_chunks =
     [js ''data: '' @ payload_hi @ [newline] @ js ''da'',
      js ''ta: '' @ payload_there @ [newline, newline]
        @ js ''data: '' @ payload_complete @ [newline]]"


definition voices_lost :: voicechat where
  \<comment> \<open>the sample object after one \<open>speak\<close> and a change of the voice list to empty\<close>
  "voices_lost = vc_run [CallSpeak (js ''a'') None, VoicesChanged []] sample_voicechat"


section \<open>Properties of the language detection\<close>

lemma devanagari_not_ws: "devanagariRegex c \<Longrightarrow> \<not> isWhiteSpace c"
  unfolding devanagariRegex_def isWhiteSpace_def
  by (auto simp add: word_le_nat_alt)

lemma devanagariCount_le_1:
  "length (case match_regex devanagariRegex text of None \<Rightarrow> [] | Some m \<Rightarrow> m) \<le> 1"
  by (simp add: match_regex_def split: option.splits)

lemma detect_hello: "detectLanguageFromText (js ''Hello world'') = js ''en''"
  by (simp add: detectLanguageFromText_def match_regex_def devanagariRegex_def js_def)

lemma detect_empty: "detectLanguageFromText [] = js ''en''"
  by (simp add: detectLanguageFromText_def match_regex_def)

text \<open>
  The regular expression has no \<open>g\<close> flag, so the count of Devanagari characters is
  never more than one, and the answer is \<open>hi\<close> only for a text of at most three
  characters besides white space.
\<close>

lemma detect_hi_iff:
  "detectLanguageFromText text = js ''hi'' \<longleftrightarrow>
     (\<exists>c \<in> set text. devanagariRegex c) \<and> length (filter (\<lambda>c. \<not> isWhiteSpace c) text) \<le> 3"
proof (cases "find devanagariRegex text")
  case None
  then have "\<not> (\<exists>c \<in> set text. devanagariRegex c)"
    by (simp add: find_None_iff)
  with None show ?thesis
    by (simp add: detectLanguageFromText_def match_regex_def Let_def js_def)
next
  case (Some c)
  then have c: "c \<in> set text" "devanagariRegex c"
    by (auto simp add: find_Some_iff)
  then have "c \<in> set (filter (\<lambda>c. \<not> isWhiteSpace c) text)"
    by (simp add: devanagari_not_ws)
  then have "filter (\<lambda>c. \<not> isWhiteSpace c) text \<noteq> []"
    by (metis empty_iff empty_set)
  with Some c show ?thesis
    by (auto simp add: detectLanguageFromText_def match_regex_def Let_def js_def)
qed

lemma detect_en_or_hi:
  "detectLanguageFromText text = js ''en'' \<or> detectLanguageFromText text = js ''hi''"
  by (simp add: detectLanguageFromText_def Let_def)

text \<open>
  A text whose Devanagari characters are exactly three tenths of its characters besides
  white space is classified \<open>en\<close>, as is the empty text: the threshold is strict.
\<close>

lemma detect_exact_threshold:
  assumes "10 * length (filter devanagariRegex text)
             = 3 * length (filter (\<lambda>c. \<not> isWhiteSpace c) text)"
  shows "detectLanguageFromText text = js ''en''"
proof (rule ccontr)
  assume "detectLanguageFromText text \<noteq> js ''en''"
  with detect_en_or_hi [of "text"] have "detectLanguageFromText text = js ''hi''"
    by simp
  then obtain c where c: "c \<in> set text" "devanagariRegex c"
    and le: "length (filter (\<lambda>c. \<not> isWhiteSpace c) text) \<le> 3"
    by (auto simp add: detect_hi_iff)
  from c have "filter devanagariRegex text \<noteq> []"
    by (auto simp add: filter_empty_conv)
  then have "1 \<le> length (filter devanagariRegex text)"
    by (cases "filter devanagariRegex text") simp_all
  with assms le show False by arith
qed

text \<open>
  C1. The classifier is to count every Devanagari character and to answer \<open>hi\<close> for
  the all-Devanagari test vector (twelve Devanagari characters and one space). The
  code finds one match in it, compares 1/12 with 0.3 and answers \<open>en\<close>.
\<close>

theorem detect_namaste_is_en: "detectLanguageFromText namaste_duniya = js ''en''"
  by (simp add: detectLanguageFromText_def match_regex_def devanagariRegex_def js_def
      namaste_duniya_def isWhiteSpace_def)


section \<open>Properties of sendMessage\<close>

lemma trim_empty_iff: "trim s = [] \<longleftrightarrow> (\<forall>c \<in> set s. isWhiteSpace c)"
proof
  assume t: "trim s = []"
  have "dropWhile isWhiteSpace s = []"
  proof (rule ccontr)
    assume ne: "dropWhile isWhiteSpace s \<noteq> []"
    then have "\<not> isWhiteSpace (hd (dropWhile isWhiteSpace s))"
      by (rule hd_dropWhile)
    moreover have "hd (dropWhile isWhiteSpace s) \<in> set (dropWhile isWhiteSpace s)"
      using ne by simp
    moreover from t have "\<forall>x \<in> set (dropWhile isWhiteSpace s). isWhiteSpace x"
      by (simp add: trim_def dropWhile_eq_Nil_conv)
    ultimately show False by blast
  qed
  then show "\<forall>c \<in> set s. isWhiteSpace c"
    by (simp add: dropWhile_eq_Nil_conv)
next
  assume "\<forall>c \<in> set s. isWhiteSpace c"
  then show "trim s = []"
    by (auto simp add: trim_def dest: set_dropWhileD)
qed

text \<open>
  C9. When the message box is empty or holds white space only, \<open>sendMessage\<close> leaves
  the whole state as it is: no message element is added, no activation is started, no
  request is issued and \<open>isStreaming\<close> keeps its value.
\<close>

theorem sendMessage_blank:
  "\<forall>c \<in> set (inputValue s). isWhiteSpace c \<Longrightarrow> sendMessage s = s"
  by (simp add: sendMessage_def trim_empty_iff)

theorem sendMessage_blank_witness:
  "list_all isWhiteSpace
     (inputValue (ChatApp_new (js ''idle'') Map.empty None None None\<lparr>inputValue := js ''  ''\<rparr>))
   \<and> sendMessage (ChatApp_new (js ''idle'') Map.empty None None None\<lparr>inputValue := js ''  ''\<rparr>)
     = ChatApp_new (js ''idle'') Map.empty None None None\<lparr>inputValue := js ''  ''\<rparr>"
  using sendMessage_blank
    [of "ChatApp_new (js ''idle'') Map.empty None None None\<lparr>inputValue := js ''  ''\<rparr>"]
  by (simp add: js_def isWhiteSpace_def)

section \<open>Properties of the stream-reading loop\<close>

lemma split_on_nonempty: "split_on d s \<noteq> []"
  by (induction s) (auto split: list.splits)

lemma split_on_no_sep: "d \<notin> set s \<Longrightarrow> split_on d s = [s]"
  by (induction s) auto

lemma last_split_on_no_sep: "d \<notin> set (last (split_on d s))"
  by (induction s) (auto split: list.splits simp add: split_on_nonempty)

lemma split_on_no_sep_lines: "l \<in> set (split_on d s) \<Longrightarrow> d \<notin> set l"
  by (induction s arbitrary: l) (auto split: list.splits if_splits)

lemma split_on_append:
  "split_on d (a @ b) = butlast (split_on d a) @ split_on d (last (split_on d a) @ b)"
proof (induction a)
  case Nil
  then show ?case by simp
next
  case (Cons c cs)
  show ?case
  proof (cases "c = d")
    case True
    then show ?thesis using Cons by (simp add: split_on_nonempty)
  next
    case False
    obtain l ls where S: "split_on d cs = l # ls"
      using split_on_nonempty [of d cs] by (cases "split_on d cs") auto
    show ?thesis
    proof (cases ls)
      case Nil
      with S False Cons show ?thesis by (simp split: list.splits)
    next
      case (Cons l2 ls2)
      with S False Cons.IH show ?thesis by (simp split: list.splits)
    qed
  qed
qed

lemma split_on_snoc_sep: "split_on d (s @ [d]) = split_on d s @ [[]]"
  by (induction s) (auto split: list.splits simp add: split_on_nonempty)

lemma split_on_join:
  "concat (map (\<lambda>l. l @ [d]) (butlast (split_on d s))) @ last (split_on d s) = s"
  by (induction s) (auto split: list.splits simp add: split_on_nonempty)

lemma feed_eq:
  "feed buffer chunk =
     (butlast (split_on newline (buffer @ chunk)), last (split_on newline (buffer @ chunk)))"
proof -
  obtain r l where "rev (split_on newline (buffer @ chunk)) = l # r"
    using split_on_nonempty [of newline "buffer @ chunk"]
    by (cases "rev (split_on newline (buffer @ chunk))") auto
  moreover from this have "split_on newline (buffer @ chunk) = rev r @ [l]"
    by (metis rev_rev_ident rev.simps(2))
  ultimately show ?thesis by (simp add: feed_def)
qed

lemma process_lines_append:
  "process_lines P h (xs @ ys) s =
     (case process_lines P h xs s of
        Threw e s' \<Rightarrow> Threw e s'
      | Normal s' \<Rightarrow> process_lines P h ys s')"
  by (induction xs arbitrary: s) (auto split: option.splits res.splits)

text \<open>
  The loop over the chunks does what one pass over the complete lines of the whole
  text does, whatever the handler and also when a record fails to parse.
\<close>

lemma read_loop_lines:
  "newline \<notin> set buffer \<Longrightarrow>
   read_loop P h chunks buffer s =
     process_lines P h (butlast (split_on newline (buffer @ concat chunks))) s"
proof (induction chunks arbitrary: buffer s)
  case Nil
  then show ?case by (simp add: split_on_no_sep)
next
  case (Cons c cs)
  have app: "butlast (split_on newline (buffer @ c @ concat cs)) =
      butlast (split_on newline (buffer @ c))
        @ butlast (split_on newline (last (split_on newline (buffer @ c)) @ concat cs))"
    using split_on_append [of newline "buffer @ c" "concat cs"]
    by (simp add: butlast_append split_on_nonempty)
  show ?case
    by (simp add: read_chunk_def feed_eq app process_lines_append
        Cons.IH [OF last_split_on_no_sep] split: res.splits)
qed

text \<open>
  C2. However the text of a stream is cut into chunks, the loop hands the same records
  to its handler, in the same order, as when the whole text arrives as one chunk; more
  generally the loop ends in the same way and in the same state, for every handler.
  This holds for every stream, well-formed or not.
\<close>

theorem chunking_irrelevant:
  "decoded_frames P chunks = decoded_frames P [concat chunks]
   \<and> read_loop P h chunks [] s = read_loop P h [concat chunks] [] s"
  using read_loop_lines [of "[]" P h chunks s]
    read_loop_lines [of "[]" P h "[concat chunks]" s]
    read_loop_lines [of "[]" P "\<lambda>d acc. Normal (acc @ [d])" chunks "[]"]
    read_loop_lines [of "[]" P "\<lambda>d acc. Normal (acc @ [d])" "[concat chunks]" "[]"]
  by (simp add: decoded_frames_def)

lemma process_lines_record:
  "list_all (\<lambda>l. \<not> startsWith l (js ''data: '') \<or> JSON_parse P (drop 6 l) \<noteq> None) ls \<Longrightarrow>
   process_lines P (\<lambda>d acc. Normal (acc @ [d])) ls acc =
     Normal (acc @ map (\<lambda>l. the (JSON_parse P (drop 6 l)))
                     (filter (\<lambda>l. startsWith l (js ''data: '')) ls))"
  by (induction ls arbitrary: acc) auto

lemma decoded_frames_well_formed:
  "well_formed P (concat chunks) \<Longrightarrow>
   decoded_frames P chunks =
     Normal (map (\<lambda>l. the (JSON_parse P (drop 6 l)))
               (filter (\<lambda>l. startsWith l (js ''data: '')) (fst (feed [] (concat chunks)))))"
  using read_loop_lines [of "[]" P "\<lambda>d acc. Normal (acc @ [d])" chunks "[]"]
  by (simp add: decoded_frames_def well_formed_def feed_eq process_lines_record)


section \<open>Properties of the turn\<close>

lemma on_complete_metrics_fields:
  "on_complete_metrics P m s = Normal s' \<Longrightarrow>
     isStreaming s' = isStreaming s \<and> pending s' = pending s"
  "on_complete_metrics P m s = Threw e s' \<Longrightarrow> s' = s"
  by (auto simp add: on_complete_metrics_def updateStatus_def
      split: if_splits sum.splits option.splits json.splits)

lemma speak_complete_fields:
  "isStreaming (speak_complete s) = isStreaming s" "pending (speak_complete s) = pending s"
  by (simp_all add: speak_complete_def Let_def split: option.splits)

lemma setAvatarState_fields:
  "isStreaming (setAvatarState a s) = isStreaming s" "pending (setAvatarState a s) = pending s"
  "avatarStateText (setAvatarState a s) = a"
  by (simp_all add: setAvatarState_def)

lemma setContent_fields:
  "isStreaming (setContent el t s) = isStreaming s" "pending (setContent el t s) = pending s"
  by (simp_all add: setContent_def)

lemma handleStreamEvent_isStreaming:
  "handleStreamEvent P d el s = Normal s' \<Longrightarrow> isStreaming s' = isStreaming s"
  by (auto simp add: handleStreamEvent_def Let_def setAvatarState_fields setContent_fields
      speak_complete_fields
      dest: on_complete_metrics_fields(1)
      split: sum.splits if_splits res.splits)

lemma process_lines_isStreaming:
  "process_lines P (\<lambda>d. handleStreamEvent P d el) ls s = Normal s' \<Longrightarrow>
     isStreaming s' = isStreaming s"
proof (induction ls arbitrary: s)
  case Nil
  then show ?case by simp
next
  case (Cons l ls)
  then show ?case
    by (auto split: if_splits option.splits res.splits dest: handleStreamEvent_isStreaming)
qed

lemma read_chunk_isStreaming:
  "read_chunk P (\<lambda>d. handleStreamEvent P d el) c b s = Normal (b', s') \<Longrightarrow>
     isStreaming s' = isStreaming s"
  by (auto simp add: read_chunk_def split: prod.splits res.splits
      dest: process_lines_isStreaming)

lemma idle_not_active: "js ''idle'' \<notin> active_states"
  by (simp add: active_states_def js_def)

lemma finally_inv: "turn_inv (sendMessage_finally s)"
  by (simp add: turn_inv_def sendMessage_finally_def setAvatarState_def idle_not_active)

text \<open>
  The invariant holds after every step. It also justifies the single \<open>pending\<close> slot
  of the model: \<open>sendMessage\<close> starts an activation only when none is suspended.
\<close>

lemma app_step_inv: "turn_inv s \<Longrightarrow> turn_inv (app_step P e s)"
proof (cases e)
  case (ReadChunk c)
  assume inv: "turn_inv s"
  show ?thesis
  proof (cases "pending s")
    case (AwaitRead b el)
    with inv have st: "isStreaming s" by (simp add: turn_inv_def)
    show ?thesis
    proof (cases "read_chunk P (\<lambda>d. handleStreamEvent P d el) c b s")
      case (Normal r)
      then obtain b' s' where r: "r = (b', s')" by (cases r)
      with Normal have "isStreaming s'" using read_chunk_isStreaming st by blast
      with Normal r AwaitRead ReadChunk show ?thesis by (simp add: turn_inv_def)
    next
      case (Threw x s')
      with AwaitRead ReadChunk show ?thesis by (simp add: finally_inv)
    qed
  qed (simp_all add: ReadChunk inv)
next
  case CallSendMessage
  assume "turn_inv s"
  then show ?thesis
    by (auto simp add: CallSendMessage turn_inv_def sendMessage_def Let_def addMessage_def setAvatarState_def)
next
  case (FetchResolved ok body)
  assume "turn_inv s"
  then show ?thesis
    by (cases "pending s") (auto simp add: FetchResolved finally_inv, auto simp add: turn_inv_def)
next
  case FetchRejected
  assume "turn_inv s"
  then show ?thesis
    by (cases "pending s") (auto simp add: FetchRejected finally_inv)
next
  case ReadDone
  assume "turn_inv s"
  then show ?thesis
    by (cases "pending s") (auto simp add: ReadDone finally_inv)
next
  case ReadRejected
  assume "turn_inv s"
  then show ?thesis
    by (cases "pending s") (auto simp add: ReadRejected finally_inv)
next
  case IdleTimerFired
  assume "turn_inv s"
  then show ?thesis
    by (auto simp add: IdleTimerFired turn_inv_def setAvatarState_def idle_not_active)
next
  case (SetInput t)
  assume "turn_inv s"
  then show ?thesis by (simp add: SetInput turn_inv_def)
next
  case (Voice v)
  assume "turn_inv s"
  then show ?thesis
    by (auto simp add: Voice turn_inv_def Let_def split: option.splits vc_event.splits)
qed

lemma app_run_inv: "turn_inv s \<Longrightarrow> turn_inv (app_run P es s)"
  by (induction es arbitrary: s) (auto intro: app_step_inv)

text \<open>
  C3. In every state the application can reach in which the avatar shows Thinking,
  StreamingText or Speaking, a turn is active (\<open>isStreaming\<close> holds) and a call of
  \<open>sendMessage\<close> with any new message in the box changes nothing: no message
  element, no activation, no request, and \<open>currentMessage\<close> as it was. The page is
  taken not to show one of these three states before the first turn.
\<close>

theorem sendMessage_rejected_while_active:
  assumes "av0 \<notin> active_states"
    and "s = app_run P evs (ChatApp_new av0 stat0 vc sel sid)"
    and "avatarStateText s \<in> active_states"
  shows "isStreaming s \<and> sendMessage (s\<lparr>inputValue := m\<rparr>) = s\<lparr>inputValue := m\<rparr>"
proof -
  have "turn_inv (ChatApp_new av0 stat0 vc sel sid)"
    using assms(1) by (simp add: turn_inv_def ChatApp_new_def)
  then have "turn_inv s"
    unfolding assms(2) by (rule app_run_inv)
  with assms(3) have "isStreaming s" by (auto simp add: turn_inv_def)
  then show ?thesis by (simp add: sendMessage_def)
qed

theorem sendMessage_rejected_while_active_witness:
  "js ''idle'' \<notin> active_states
   \<and> avatarStateText (app_run sample_platform [SetInput (js ''Hello''), CallSendMessage]
         (ChatApp_new (js ''idle'') Map.empty None None None)) \<in> active_states
   \<and> isStreaming (app_run sample_platform [SetInput (js ''Hello''), CallSendMessage]
         (ChatApp_new (js ''idle'') Map.empty None None None))
   \<and> sendMessage ((app_run sample_platform [SetInput (js ''Hello''), CallSendMessage]
         (ChatApp_new (js ''idle'') Map.empty None None None))\<lparr>inputValue := js ''again''\<rparr>)
      = (app_run sample_platform [SetInput (js ''Hello''), CallSendMessage]
         (ChatApp_new (js ''idle'') Map.empty None None None))\<lparr>inputValue := js ''again''\<rparr>"
proof -
  have a: "js ''idle'' \<notin> active_states"
    by (rule idle_not_active)
  have b: "avatarStateText (app_run sample_platform [SetInput (js ''Hello''), CallSendMessage]
         (ChatApp_new (js ''idle'') Map.empty None None None)) \<in> active_states"
    by (simp add: ChatApp_new_def sendMessage_def trim_def isWhiteSpace_def js_def Let_def
        addMessage_def setAvatarState_def active_states_def)
  from a b sendMessage_rejected_while_active [OF a refl b] show ?thesis by simp
qed

section \<open>The trailing line\<close>

text \<open>
  C6. One round of the loop splits buffer and chunk at the newlines: the lines it
  processes are exactly the pieces that a newline ended in the text, and what follows the
  last newline is kept as the new buffer, unparsed, whatever it holds. When the chunk ends
  with a newline the new buffer is empty and no line is added for it. An empty line, like
  any line without the marker, is dropped without reaching the parser or the handler.
\<close>

theorem feed_keeps_trailing_line:
  "(case feed buffer chunk of
      (lines, rest) \<Rightarrow>
        buffer @ chunk = concat (map (\<lambda>l. l @ [newline]) lines) @ rest
        \<and> newline \<notin> set rest
        \<and> list_all (\<lambda>l. newline \<notin> set l) lines
        \<and> read_chunk P h chunk buffer s =
            (case process_lines P h lines s of
               Threw e s' \<Rightarrow> Threw e s'
             | Normal s' \<Rightarrow> Normal (rest, s')))
   \<and> feed buffer (chunk @ [newline]) = (split_on newline (buffer @ chunk), [])
   \<and> process_lines P h ([] # ls) s = process_lines P h ls s
   \<and> (\<not> startsWith l (js ''data: '') \<longrightarrow> process_lines P h (l # ls) s = process_lines P h ls s)"
proof -
  have 1: "buffer @ chunk =
      concat (map (\<lambda>l. l @ [newline]) (butlast (split_on newline (buffer @ chunk))))
        @ last (split_on newline (buffer @ chunk))"
    using split_on_join [of newline "buffer @ chunk"] by simp
  have 2: "list_all (\<lambda>l. newline \<notin> set l) (butlast (split_on newline (buffer @ chunk)))"
    by (auto simp add: list_all_iff dest: in_set_butlastD split_on_no_sep_lines)
  have 3: "feed buffer (chunk @ [newline]) = (split_on newline (buffer @ chunk), [])"
    using split_on_snoc_sep [of newline "buffer @ chunk"] by (simp add: feed_eq)
  have 4: "process_lines P h ([] # ls) s = process_lines P h ls s"
    by (simp add: startsWith_def js_def)
  show ?thesis
    using 1 2 3 4 by (simp add: feed_eq read_chunk_def last_split_on_no_sep)
qed

theorem feed_keeps_trailing_line_witness:
  "feed (js ''da'')
       (js ''ta: '' @ payload_hi @ [newline] @ js '': ping'' @ [newline] @ js ''data: '' @ payload_cut)
     = ([js ''data: '' @ payload_hi, js '': ping''], js ''data: '' @ payload_cut)
   \<and> read_chunk sample_platform (\<lambda>d acc. Normal (acc @ [d]))
        (js ''ta: '' @ payload_hi @ [newline] @ js '': ping'' @ [newline] @ js ''data: '' @ payload_cut)
        (js ''da'') []
     = Normal (js ''data: '' @ payload_cut, [token_frame (js ''Hi'')])
   \<and> process_lines sample_platform (\<lambda>d acc. Normal (acc @ [d])) [js '': ping''] []
     = Normal []"
proof -
  let ?chunk = "js ''ta: '' @ payload_hi @ [newline] @ js '': ping'' @ [newline]
      @ js ''data: '' @ payload_cut"
  have f: "feed (js ''da'') ?chunk
     = ([js ''data: '' @ payload_hi, js '': ping''], js ''data: '' @ payload_cut)"
    by (simp add: feed_def js_def newline_def payload_hi_def payload_cut_def)
  have n: "\<not> startsWith (js '': ping'') (js ''data: '')"
    by (simp add: startsWith_def js_def)
  have p: "process_lines sample_platform (\<lambda>d acc. Normal (acc @ [d]))
       [js ''data: '' @ payload_hi, js '': ping''] [] = Normal [token_frame (js ''Hi'')]"
    by (simp add: startsWith_def js_def sample_platform_def)
  show ?thesis
    using feed_keeps_trailing_line [of "js ''da''" ?chunk
        sample_platform "\<lambda>d acc. Normal (acc @ [d])" "[]" "[]" "js '': ping''"]
      f n p
    by simp
qed


section \<open>Properties of handleStreamEvent\<close>

lemma handle_token:
  "handleStreamEvent P (token_frame c) el s =
     Normal (setAvatarState (js ''streaming'')
       (setContent el (currentMessage s @ c) (s\<lparr>currentMessage := currentMessage s @ c\<rparr>)))"
  by (simp add: handleStreamEvent_def token_frame_def str_concat_def js_def Let_def)

text \<open>
  C10. A status record with state \<open>complete\<close> that arrives while the accumulated
  reply is empty: \<open>speak\<close> is not called and the \<open>VoiceChat\<close> object is untouched (no
  utterance), the avatar goes to Speaking, and the latency, when the record carries it
  and the page has the element, is written as \<open>toFixed(2)\<close> followed by \<open>s\<close>.
\<close>

theorem complete_with_empty_reply:
  assumes "map_of kvs (js ''type'') = Some (JStr (js ''status''))"
    and "map_of kvs (js ''state'') = Some (JStr (js ''complete''))"
    and "map_of kvs (js ''metrics'') =
           (case lat of None \<Rightarrow> None | Some n \<Rightarrow> Some (JObj [(js ''latency'', JNum n)]))"
    and "currentMessage s = []"
  shows "case handleStreamEvent P (JObj kvs) el s of
           Threw e s' \<Rightarrow> False
         | Normal s' \<Rightarrow>
             speakLog s' = speakLog s \<and> voiceChat s' = voiceChat s
             \<and> avatarStateText s' = js ''speaking''
             \<and> avatarLog s' = avatarLog s @ [js ''speaking'']
             \<and> statusEls s' =
                 (case lat of
                    None \<Rightarrow> statusEls s
                  | Some n \<Rightarrow>
                      (case statusEls s (js ''latency'') of
                         None \<Rightarrow> statusEls s
                       | Some old \<Rightarrow>
                           (statusEls s)(js ''latency'' \<mapsto> Number_toFixed2 P n @ js ''s'')))"
proof (cases lat)
  case None
  with assms show ?thesis
    by (simp add: handleStreamEvent_def on_complete_metrics_def speak_complete_def
        setAvatarState_def js_def Let_def split: option.splits)
next
  case (Some n)
  with assms show ?thesis
    by (simp add: handleStreamEvent_def on_complete_metrics_def speak_complete_def
        setAvatarState_def updateStatus_def js_def Let_def split: option.splits)
qed


section \<open>A record that does not parse\<close>

text \<open>
  C5. A chunk arrives whose lines are \<open>pre\<close>, then a line with the marker whose
  payload \<open>JSON.parse\<close> rejects. With \<open>s1\<close> the state after the records of \<open>pre\<close>:
  the avatar goes to Error and then to Idle, the activation is over and
  \<open>isStreaming\<close> is false, the accumulated reply and every message element are as in
  \<open>s1\<close> (the failure message is added after them), and the next turn starts reading
  with an empty buffer.
\<close>

theorem malformed_record_aborts_turn:
  assumes "pending s = AwaitRead buffer el"
    and "feed buffer chunk = (pre @ bad # post, rest)"
    and "process_lines P (\<lambda>d. handleStreamEvent P d el) pre s = Normal s1"
    and "startsWith bad (js ''data: '')"
    and "JSON_parse P (drop 6 bad) = None"
    and "trim m \<noteq> []"
  shows "avatarLog (app_step P (ReadChunk chunk) s) = avatarLog s1 @ [js ''error'', js ''idle'']
    \<and> avatarStateText (app_step P (ReadChunk chunk) s) = js ''idle''
    \<and> \<not> isStreaming (app_step P (ReadChunk chunk) s)
    \<and> pending (app_step P (ReadChunk chunk) s) = NotRunning
    \<and> currentMessage (app_step P (ReadChunk chunk) s) = currentMessage s1
    \<and> messages (app_step P (ReadChunk chunk) s) =
        messages s1 @ [(js ''assistant'', js ''Error: Failed to send message. Please try again.'')]
    \<and> pending (app_run P [SetInput m, CallSendMessage, FetchResolved True True]
                 (app_step P (ReadChunk chunk) s))
        = AwaitRead [] (length (messages s1) + 2)"
proof -
  have "process_lines P (\<lambda>d. handleStreamEvent P d el) (pre @ bad # post) s = Threw SyntaxError s1"
    using assms(3,4,5) by (simp add: process_lines_append)
  then have step: "app_step P (ReadChunk chunk) s = sendMessage_finally (sendMessage_catch s1)"
    using assms(1,2) by (simp add: read_chunk_def)
  show ?thesis
    unfolding step using assms(6)
    by (simp add: sendMessage_finally_def sendMessage_catch_def setAvatarState_def
        addMessage_def sendMessage_def Let_def)
qed


section \<open>The properties on sample values\<close>

lemma sample_reading_eq:
  "sample_reading =
     \<lparr>inputValue = [], messages = [(js ''user'', js ''Hello''), (js ''assistant'', [])],
      avatarClass = [js ''avatar'', js ''thinking''],
      avatarStateText = js ''thinking'', avatarLog = [js ''thinking''],
      statusEls = [js ''latency'' \<mapsto> js ''-''], sessionId = None,
      currentMessage = [], isStreaming = True,
      voiceChat = Some sample_voicechat,
      speakLog = [], requests = [(js ''Hello'', None)], idleTimers = 0,
      pending = AwaitRead [] 1\<rparr>"
  by (simp add: sample_reading_def ChatApp_new_def sendMessage_def trim_def isWhiteSpace_def
      js_def Let_def addMessage_def setAvatarState_def)

theorem complete_with_empty_reply_witness:
  "(case handleStreamEvent sample_platform (complete_frame (Some 42)) 1 sample_reading of
      Threw e s' \<Rightarrow> False
    | Normal s' \<Rightarrow>
        speakLog s' = [] \<and> voiceChat s' = Some sample_voicechat
        \<and> avatarStateText s' = js ''speaking''
        \<and> statusEls s' (js ''latency'') = Some (js ''0.42s''))"
  using complete_with_empty_reply [of
      "[(js ''type'', JStr (js ''status'')), (js ''state'', JStr (js ''complete'')),
        (js ''metrics'', JObj [(js ''latency'', JNum 42)])]"
      "Some 42" sample_reading sample_platform 1]
  by (simp add: complete_frame_def sample_reading_eq sample_platform_def js_def
      split: res.splits)

theorem malformed_record_aborts_turn_witness:
  "avatarLog (app_step sample_platform
      (ReadChunk (js ''data: '' @ payload_hi @ [newline] @ js ''data: '' @ payload_cut @ [newline]))
      sample_reading)
     = [js ''thinking'', js ''streaming'', js ''error'', js ''idle'']
   \<and> currentMessage (app_step sample_platform
      (ReadChunk (js ''data: '' @ payload_hi @ [newline] @ js ''data: '' @ payload_cut @ [newline]))
      sample_reading)
     = js ''Hi''
   \<and> messages (app_step sample_platform
      (ReadChunk (js ''data: '' @ payload_hi @ [newline] @ js ''data: '' @ payload_cut @ [newline]))
      sample_reading)
     = [(js ''user'', js ''Hello''), (js ''assistant'', js ''Hi''),
        (js ''assistant'', js ''Error: Failed to send message. Please try again.'')]
   \<and> pending (app_run sample_platform [SetInput (js ''more''), CallSendMessage, FetchResolved True True]
        (app_step sample_platform
          (ReadChunk (js ''data: '' @ payload_hi @ [newline] @ js ''data: '' @ payload_cut @ [newline]))
          sample_reading))
     = AwaitRead [] 4"
proof -
  let ?s1 = "setAvatarState (js ''streaming'')
       (setContent 1 (currentMessage sample_reading @ js ''Hi'')
          (sample_reading\<lparr>currentMessage := currentMessage sample_reading @ js ''Hi''\<rparr>))"
  have 1: "pending sample_reading = AwaitRead [] 1"
    by (simp add: sample_reading_eq)
  have 2: "feed [] (js ''data: '' @ payload_hi @ [newline] @ js ''data: '' @ payload_cut @ [newline])
      = ([js ''data: '' @ payload_hi] @ (js ''data: '' @ payload_cut) # [], [])"
    by (simp add: feed_def js_def newline_def payload_hi_def payload_cut_def)
  have 3: "process_lines sample_platform (\<lambda>d. handleStreamEvent sample_platform d 1)
      [js ''data: '' @ payload_hi] sample_reading = Normal ?s1"
    by (simp add: startsWith_def js_def sample_platform_def handle_token [unfolded js_def])
  have 4: "startsWith (js ''data: '' @ payload_cut) (js ''data: '')"
    by (simp add: startsWith_def js_def)
  have 5: "JSON_parse sample_platform (drop 6 (js ''data: '' @ payload_cut)) = None"
    by (simp add: sample_platform_def js_def payload_hi_def payload_there_def
        payload_complete_def payload_cut_def)
  have 6: "trim (js ''more'') \<noteq> []"
    by (simp add: trim_def isWhiteSpace_def js_def)
  show ?thesis
    using malformed_record_aborts_turn [OF 1 2 3 4 5 6]
    by (simp add: sample_reading_eq setAvatarState_def setContent_def js_def)
qed


section \<open>The loop inside the application\<close>

text \<open>
  The handler neither reads nor writes \<open>pending\<close>.
\<close>

lemma get_prop_nonnull:
  "d \<noteq> JNull \<Longrightarrow> \<exists>v. get_prop (Some d) k = Inr v"
  by (cases d) simp_all

lemma on_complete_metrics_pending:
  "on_complete_metrics P m (s\<lparr>pending := p\<rparr>) = with_pending p (on_complete_metrics P m s)"
  by (simp add: on_complete_metrics_def updateStatus_def with_pending_def
      split: sum.splits option.splits json.splits)

lemma speak_complete_pending:
  "speak_complete (s\<lparr>pending := p\<rparr>) = (speak_complete s)\<lparr>pending := p\<rparr>"
  by (simp add: speak_complete_def Let_def split: option.splits)

lemma setAvatarState_pending:
  "setAvatarState a (s\<lparr>pending := p\<rparr>) = (setAvatarState a s)\<lparr>pending := p\<rparr>"
  by (simp add: setAvatarState_def)

lemma setContent_pending:
  "setContent el t (s\<lparr>pending := p\<rparr>) = (setContent el t s)\<lparr>pending := p\<rparr>"
  by (simp add: setContent_def)

lemma token_pending:
  "setAvatarState a (setContent el t (s\<lparr>pending := p, currentMessage := x\<rparr>)) =
   (setAvatarState a (setContent el t (s\<lparr>currentMessage := x\<rparr>)))\<lparr>pending := p\<rparr>"
  by (simp add: setAvatarState_def setContent_def)

lemma complete_pending:
  "(case with_pending p r of Threw e s2 \<Rightarrow> Threw e s2
     | Normal s2 \<Rightarrow> Normal (speak_complete s2\<lparr>idleTimers := Suc (idleTimers (speak_complete s2))\<rparr>))
   = with_pending p (case r of Threw e s2 \<Rightarrow> Threw e s2
     | Normal s2 \<Rightarrow> Normal (speak_complete s2\<lparr>idleTimers := Suc (idleTimers (speak_complete s2))\<rparr>))"
  by (cases r) (simp_all add: with_pending_def speak_complete_pending)

lemma handleStreamEvent_pending:
  "handleStreamEvent P d el (s\<lparr>pending := p\<rparr>) = with_pending p (handleStreamEvent P d el s)"
proof (cases "d = JNull")
  case True
  then show ?thesis by (simp add: handleStreamEvent_def with_pending_def)
next
  case False
  then obtain t c st m msg where g:
    "get_prop (Some d) (js ''type'') = Inr t"
    "get_prop (Some d) (js ''content'') = Inr c"
    "get_prop (Some d) (js ''state'') = Inr st"
    "get_prop (Some d) (js ''metrics'') = Inr m"
    "get_prop (Some d) (js ''message'') = Inr msg"
    using get_prop_nonnull by metis
  show ?thesis
    unfolding handleStreamEvent_def Let_def g sum.case
    by (simp add: token_pending complete_pending setAvatarState_pending setContent_pending
        on_complete_metrics_pending)
      (simp add: with_pending_def)
qed

lemma process_lines_pending:
  "process_lines P (\<lambda>d. handleStreamEvent P d el) ls (s\<lparr>pending := p\<rparr>) =
     with_pending p (process_lines P (\<lambda>d. handleStreamEvent P d el) ls s)"
proof (induction ls arbitrary: s)
  case Nil
  then show ?case by (simp add: with_pending_def)
next
  case (Cons l ls)
  show ?case
  proof (cases "startsWith l (js ''data: '')")
    case False
    then show ?thesis using Cons by simp
  next
    case True
    show ?thesis
    proof (cases "JSON_parse P (drop 6 l)")
      case None
      with True show ?thesis by (simp add: with_pending_def)
    next
      case (Some d)
      show ?thesis
      proof (cases "handleStreamEvent P d el s")
        case (Normal s')
        with True Some Cons.IH [of s'] show ?thesis
          by (simp add: handleStreamEvent_pending with_pending_def)
      next
        case (Threw e s')
        with True Some show ?thesis
          by (simp add: handleStreamEvent_pending with_pending_def)
      qed
    qed
  qed
qed

lemma process_lines_filter:
  "process_lines P h (filter (\<lambda>l. startsWith l (js ''data: '')) ls) s = process_lines P h ls s"
  by (induction ls arbitrary: s) (auto split: option.splits res.splits)

text \<open>
  While the activation reads, a run of chunk deliveries is the loop over these chunks.
\<close>

lemma app_run_chunks:
  "pending s = AwaitRead b el \<Longrightarrow> newline \<notin> set b \<Longrightarrow>
   process_lines P (\<lambda>d. handleStreamEvent P d el)
     (butlast (split_on newline (b @ concat chunks))) s = Normal s' \<Longrightarrow>
   app_run P (map ReadChunk chunks @ es) s =
     app_run P es (s'\<lparr>pending := AwaitRead (last (split_on newline (b @ concat chunks))) el\<rparr>)"
proof (induction chunks arbitrary: b s s')
  case Nil
  from Nil(2,3) have eq: "s' = s" by (simp add: split_on_no_sep)
  from Nil(1) have "s\<lparr>pending := AwaitRead b el\<rparr> = s" by (cases s) simp
  then show ?case
    unfolding eq using Nil(2) by (simp add: split_on_no_sep)
next
  case (Cons c cs)
  let ?H = "\<lambda>d. handleStreamEvent P d el"
  let ?b1 = "last (split_on newline (b @ c))"
  have app: "split_on newline (b @ c @ concat cs) =
      butlast (split_on newline (b @ c)) @ split_on newline (?b1 @ concat cs)"
    using split_on_append [of newline "b @ c" "concat cs"] by simp
  then have bl: "butlast (split_on newline (b @ c @ concat cs)) =
      butlast (split_on newline (b @ c)) @ butlast (split_on newline (?b1 @ concat cs))"
    by (simp add: butlast_append split_on_nonempty)
  from app have la: "last (split_on newline (b @ c @ concat cs)) =
      last (split_on newline (?b1 @ concat cs))"
    by (simp add: split_on_nonempty)
  from Cons.prems(3) obtain s1 where
    s1: "process_lines P ?H (butlast (split_on newline (b @ c))) s = Normal s1"
    and s': "process_lines P ?H (butlast (split_on newline (?b1 @ concat cs))) s1 = Normal s'"
    by (auto simp add: bl process_lines_append split: res.splits)
  let ?t = "s1\<lparr>pending := AwaitRead ?b1 el\<rparr>"
  have step: "app_step P (ReadChunk c) s = ?t"
    using Cons.prems(1) s1 by (simp add: read_chunk_def feed_eq)
  have "process_lines P ?H (butlast (split_on newline (?b1 @ concat cs))) ?t
      = Normal (s'\<lparr>pending := AwaitRead ?b1 el\<rparr>)"
    using s' by (simp add: process_lines_pending with_pending_def)
  from Cons.IH [OF _ last_split_on_no_sep this]
  have ih: "app_run P (map ReadChunk cs @ es) ?t =
      app_run P es (s'\<lparr>pending := AwaitRead (last (split_on newline (?b1 @ concat cs))) el\<rparr>)"
    by simp
  have "app_run P (map ReadChunk (c # cs) @ es) s =
      app_run P (map ReadChunk cs @ es) (app_step P (ReadChunk c) s)"
    by simp
  also have "\<dots> = app_run P (map ReadChunk cs @ es) ?t"
    by (simp only: step)
  also note ih
  finally show ?case by (simp add: la)
qed



section \<open>The scenario of the specification\<close>

lemma detect_hi_there: "detectLanguageFromText (js ''Hi there'') = js ''en''"
  by (simp add: detectLanguageFromText_def match_regex_def devanagariRegex_def js_def)

text \<open>
  C4. The user sends Hello; the response arrives and its stream, cut into chunks in any
  way, carries three lines with the marker, parsed as token Hi, token " there" and status
  complete with a latency; the stream then ends. With a \<open>VoiceChat\<close> object present:
  the assistant element shows "Hi there", the avatar went through thinking, streaming
  (once for each token), speaking and is idle at the end, also after the timeout, and
  \<open>speak\<close> was called exactly once, with "Hi there" and \<open>en\<close>.
\<close>

theorem hello_scenario:
  assumes "filter (\<lambda>l. startsWith l (js ''data: '')) (fst (feed [] (concat chunks))) = [l1, l2, l3]"
    and "JSON_parse P (drop 6 l1) = Some (token_frame (js ''Hi''))"
    and "JSON_parse P (drop 6 l2) = Some (token_frame (js '' there''))"
    and "JSON_parse P (drop 6 l3) = Some (complete_frame (Some lat))"
    and "s = app_run P ([SetInput (js ''Hello''), CallSendMessage, FetchResolved True True]
                          @ map ReadChunk chunks @ [ReadDone])
               (ChatApp_new av0 stat0 (Some vc) sel sid)"
  shows "messages s = [(js ''user'', js ''Hello''), (js ''assistant'', js ''Hi there'')]
    \<and> currentMessage s = js ''Hi there''
    \<and> avatarLog s = [js ''thinking'', js ''streaming'', js ''streaming'', js ''speaking'', js ''idle'']
    \<and> avatarStateText s = js ''idle''
    \<and> avatarStateText (app_step P IdleTimerFired s) = js ''idle''
    \<and> speakLog s = [(js ''Hi there'', js ''en'')]
    \<and> requests s = [(js ''Hello'', sid)]
    \<and> \<not> isStreaming s \<and> pending s = NotRunning"
proof -
  let ?H = "\<lambda>d. handleStreamEvent P d 1"
  define s0 where "s0 = app_run P [SetInput (js ''Hello''), CallSendMessage, FetchResolved True True]
      (ChatApp_new av0 stat0 (Some vc) sel sid)"
  have s0: "s0 = \<lparr>inputValue = [], messages = [(js ''user'', js ''Hello''), (js ''assistant'', [])],
      avatarClass = [js ''avatar'', js ''thinking''],
      avatarStateText = js ''thinking'', avatarLog = [js ''thinking''],
      statusEls = stat0, sessionId = sid,
      currentMessage = [], isStreaming = True,
      voiceChat = (case sel of None \<Rightarrow> Some vc | Some l \<Rightarrow> Some (setLanguage l vc)),
      speakLog = [], requests = [(js ''Hello'', sid)], idleTimers = 0,
      pending = AwaitRead [] 1\<rparr>"
    by (simp add: s0_def ChatApp_new_def sendMessage_def trim_def isWhiteSpace_def
        js_def Let_def addMessage_def setAvatarState_def)
  obtain v where v: "voiceChat s0 = Some v"
    by (cases sel) (simp_all add: s0)
  have lines: "process_lines P ?H (butlast (split_on newline ([] @ concat chunks))) s0
      = process_lines P ?H [l1, l2, l3] s0"
    using assms(1) process_lines_filter [of P ?H "fst (feed [] (concat chunks))" s0]
    by (simp add: feed_eq)
  have t1: "handleStreamEvent P (token_frame (js ''Hi'')) 1 s0 =
      Normal (s0\<lparr>currentMessage := js ''Hi'',
        messages := [(js ''user'', js ''Hello''), (js ''assistant'', js ''Hi'')],
        avatarClass := [js ''avatar'', js ''streaming''], avatarStateText := js ''streaming'',
        avatarLog := [js ''thinking'', js ''streaming'']\<rparr>)" (is "_ = Normal ?s1")
    by (simp add: handle_token s0 setAvatarState_def setContent_def js_def)
  have t2: "handleStreamEvent P (token_frame (js '' there'')) 1 ?s1 =
      Normal (s0\<lparr>currentMessage := js ''Hi there'',
        messages := [(js ''user'', js ''Hello''), (js ''assistant'', js ''Hi there'')],
        avatarClass := [js ''avatar'', js ''streaming''], avatarStateText := js ''streaming'',
        avatarLog := [js ''thinking'', js ''streaming'', js ''streaming'']\<rparr>)"
      (is "_ = Normal ?s2")
    by (simp add: handle_token s0 setAvatarState_def setContent_def js_def)
  obtain s3 where t3: "handleStreamEvent P (complete_frame (Some lat)) 1 ?s2 = Normal s3"
    and m3: "messages s3 = [(js ''user'', js ''Hello''), (js ''assistant'', js ''Hi there'')]"
    and c3: "currentMessage s3 = js ''Hi there''"
    and a3: "avatarLog s3 = [js ''thinking'', js ''streaming'', js ''streaming'', js ''speaking'']"
    and l3: "speakLog s3 = [(js ''Hi there'', js ''en'')]"
    and r3: "requests s3 = [(js ''Hello'', sid)]"
    using v detect_hi_there
    by (simp add: handleStreamEvent_def complete_frame_def on_complete_metrics_def
        speak_complete_def updateStatus_def setAvatarState_def Let_def s0 js_def
        split: option.splits)
  have "\<forall>l \<in> set (filter (\<lambda>l. startsWith l (js ''data: '')) (fst (feed [] (concat chunks)))).
      startsWith l (js ''data: '')"
    by simp
  then have sw: "startsWith l1 (js ''data: '')" "startsWith l2 (js ''data: '')"
      "startsWith l3 (js ''data: '')"
    unfolding assms(1) by simp_all
  have run: "process_lines P ?H [l1, l2, l3] s0 = Normal s3"
    using assms(2,3,4) sw t1 t2 t3 by simp
  have p0: "pending s0 = AwaitRead [] 1" by (simp add: s0)
  have "s = app_run P (map ReadChunk chunks @ [ReadDone]) s0"
    by (simp add: assms(5) s0_def)
  also have "\<dots> = app_run P [ReadDone]
      (s3\<lparr>pending := AwaitRead (last (split_on newline ([] @ concat chunks))) 1\<rparr>)"
  proof (rule app_run_chunks [OF p0])
    show "newline \<notin> set []" by simp
    show "process_lines P ?H (butlast (split_on newline ([] @ concat chunks))) s0 = Normal s3"
      unfolding lines by (rule run)
  qed
  finally have s: "s = sendMessage_finally s3"
    by (simp add: sendMessage_finally_def setAvatarState_def)
  show ?thesis
    by (simp add: s sendMessage_finally_def setAvatarState_def m3 c3 a3 l3 r3)
qed

theorem hello_scenario_witness:
  "messages (app_run sample_platform
       ([SetInput (js ''Hello''), CallSendMessage, FetchResolved True True]
          @ map ReadChunk sample_chunks @ [ReadDone])
       (ChatApp_new (js ''idle'') Map.empty (Some sample_voicechat) None None))
     = [(js ''user'', js ''Hello''), (js ''assistant'', js ''Hi there'')]
   \<and> avatarLog (app_run sample_platform
       ([SetInput (js ''Hello''), CallSendMessage, FetchResolved True True]
          @ map ReadChunk sample_chunks @ [ReadDone])
       (ChatApp_new (js ''idle'') Map.empty (Some sample_voicechat) None None))
     = [js ''thinking'', js ''streaming'', js ''streaming'', js ''speaking'', js ''idle'']
   \<and> speakLog (app_run sample_platform
       ([SetInput (js ''Hello''), CallSendMessage, FetchResolved True True]
          @ map ReadChunk sample_chunks @ [ReadDone])
       (ChatApp_new (js ''idle'') Map.empty (Some sample_voicechat) None None))
     = [(js ''Hi there'', js ''en'')]"
proof -
  have 1: "filter (\<lambda>l. startsWith l (js ''data: '')) (fst (feed [] (concat sample_chunks)))
      = [js ''data: '' @ payload_hi, js ''data: '' @ payload_there, js ''data: '' @ payload_complete]"
    by (simp add: sample_chunks_def feed_def startsWith_def js_def newline_def
        payload_hi_def payload_there_def payload_complete_def)
  have 2: "JSON_parse sample_platform (drop 6 (js ''data: '' @ payload_hi))
      = Some (token_frame (js ''Hi''))"
    by (simp add: sample_platform_def js_def)
  have 3: "JSON_parse sample_platform (drop 6 (js ''data: '' @ payload_there))
      = Some (token_frame (js '' there''))"
    by (simp add: sample_platform_def js_def payload_hi_def payload_there_def)
  have 4: "JSON_parse sample_platform (drop 6 (js ''data: '' @ payload_complete))
      = Some (complete_frame (Some 42))"
    by (simp add: sample_platform_def js_def payload_hi_def payload_there_def
        payload_complete_def)
  from hello_scenario [OF 1 2 3 4 refl] show ?thesis by simp
qed


section \<open>Properties of the voice chat\<close>

lemma showVoiceStatus_fields:
  "isRecording (showVoiceStatus m t vc) = isRecording vc"
  "recognition (showVoiceStatus m t vc) = recognition vc"
  by (simp_all add: showVoiceStatus_def)

lemma handleTranscript_fields:
  "isRecording (handleTranscript t f vc) = isRecording vc"
  "recognition (handleTranscript t f vc) = recognition vc"
  by (simp_all add: handleTranscript_def showVoiceStatus_fields)

lemma handleRecognitionError_fields:
  "isRecording (handleRecognitionError e vc) = isRecording vc"
  "recognition (handleRecognitionError e vc) = recognition vc"
  by (simp_all add: handleRecognitionError_def showVoiceStatus_fields Let_def)

lemma speak_fields:
  "isRecording (speak t l vc) = isRecording vc"
  "recognition (speak t l vc) = recognition vc"
  by (cases "currentUtterance vc"; cases l; simp add: speak_def Let_def split: option.splits)+

lemma stopSpeaking_fields:
  "isRecording (stopSpeaking vc) = isRecording vc"
  "recognition (stopSpeaking vc) = recognition vc"
  by (simp_all add: stopSpeaking_def)

lemma setVoiceOutputEnabled_fields:
  "isRecording (setVoiceOutputEnabled b vc) = isRecording vc"
  "recognition (setVoiceOutputEnabled b vc) = recognition vc"
  by (simp_all add: setVoiceOutputEnabled_def stopSpeaking_fields Let_def)

lemma stopRecording_fields:
  "isRecording (stopRecording vc) = isRecording vc"
  "recognition vc = None \<Longrightarrow> recognition (stopRecording vc) = None"
  "recognition vc = Some r \<Longrightarrow> \<exists>r'. recognition (stopRecording vc) = Some r'"
  by (simp_all add: stopRecording_def split: option.splits)

lemma startRecording_fields:
  "isRecording (startRecording b vc) = isRecording vc"
  "recognition vc = None \<Longrightarrow> recognition (startRecording b vc) = None"
  "recognition vc = Some r \<Longrightarrow> \<exists>r'. recognition (startRecording b vc) = Some r'"
  by (simp_all add: startRecording_def showVoiceStatus_fields stopRecording_fields Let_def
      split: option.splits)

lemma setLanguage_fields:
  "isRecording (setLanguage l vc) = isRecording vc"
  "recognition vc = None \<Longrightarrow> recognition (setLanguage l vc) = None"
  "recognition vc = Some r \<Longrightarrow> \<exists>r'. recognition (setLanguage l vc) = Some r'"
  by (simp_all add: setLanguage_def Let_def split: option.splits)

lemmas vc_fields =
  showVoiceStatus_fields handleTranscript_fields handleRecognitionError_fields speak_fields
  stopSpeaking_fields setVoiceOutputEnabled_fields stopRecording_fields startRecording_fields
  setLanguage_fields

lemma vc_step_no_recognition:
  "recognition vc = None \<Longrightarrow>
     recognition (vc_step e vc) = None \<and> isRecording (vc_step e vc) = isRecording vc"
  by (cases e) (simp_all add: vc_fields)

lemma vc_step_recognition:
  "recognition vc = Some r \<Longrightarrow> \<exists>r'. recognition (vc_step e vc) = Some r'"
  by (cases e) (simp_all add: vc_fields loadVoices_def)

lemma vc_step_rec_inv: "rec_inv vc \<Longrightarrow> rec_inv (vc_step e vc)"
proof (cases "recognition vc")
  case None
  assume "rec_inv vc"
  with None vc_step_no_recognition [OF None, of e] show ?thesis
    by (simp add: rec_inv_def)
next
  case (Some r)
  with vc_step_recognition [OF Some, of e] show ?thesis
    by (auto simp add: rec_inv_def)
qed

lemma vc_run_rec_inv: "rec_inv vc \<Longrightarrow> rec_inv (vc_run es vc)"
  by (induction es arbitrary: vc) (auto intro: vc_step_rec_inv)

lemma VoiceChat_new_rec_inv: "VoiceChat_new supported syn vs = Inr vc0 \<Longrightarrow> rec_inv vc0"
  by (auto simp add: VoiceChat_new_def rec_inv_def loadVoices_def Let_def split: if_splits)

text \<open>
  C7. In every state a \<open>VoiceChat\<close> object can reach in which \<open>isRecording\<close> is
  true, \<open>startRecording\<close> makes one call of \<open>recognition.stop()\<close>, no call of
  \<open>recognition.start()\<close>, and changes nothing else.
\<close>

theorem startRecording_while_recording:
  assumes "VoiceChat_new supported syn vs = Inr vc0"
    and "vc = vc_run evs vc0"
    and "isRecording vc"
  shows "\<exists>r. recognition vc = Some r
    \<and> startRecording throws vc = vc\<lparr>recognition := Some (r\<lparr>rec_calls := rec_calls r @ [RecStop]\<rparr>)\<rparr>"
proof -
  have "rec_inv vc"
    unfolding assms(2) using assms(1) by (intro vc_run_rec_inv VoiceChat_new_rec_inv)
  with assms(3) obtain r where "recognition vc = Some r"
    by (auto simp add: rec_inv_def)
  with assms(3) show ?thesis
    by (simp add: startRecording_def stopRecording_def)
qed

lemma sample_voicechat_new: "VoiceChat_new True True [en_voice] = Inr sample_voicechat"
  by (simp add: VoiceChat_new_def sample_voicechat_def loadVoices_def)

theorem startRecording_while_recording_witness:
  "VoiceChat_new True True [en_voice] = Inr sample_voicechat
   \<and> isRecording (vc_run [CallStartRecording False, RecOnStart] sample_voicechat)
   \<and> recognition (startRecording False (vc_run [CallStartRecording False, RecOnStart] sample_voicechat))
       = Some \<lparr>rec_lang = None, rec_calls = [RecStart, RecStop]\<rparr>"
proof -
  have 1: "isRecording (vc_run [CallStartRecording False, RecOnStart] sample_voicechat)"
    by (simp add: sample_voicechat_def startRecording_def showVoiceStatus_def js_def)
  have 2: "recognition (vc_run [CallStartRecording False, RecOnStart] sample_voicechat)
      = Some \<lparr>rec_lang = None, rec_calls = [RecStart]\<rparr>"
    by (simp add: sample_voicechat_def startRecording_def showVoiceStatus_def js_def)
  from startRecording_while_recording [OF sample_voicechat_new refl 1, of False] 2
  show ?thesis using 1 sample_voicechat_new by auto
qed

lemma getVoiceForLanguage_None_iff:
  "getVoiceForLanguage vc l = None \<longleftrightarrow> (voices vc = None \<or> voices vc = Some [])"
  by (auto simp add: getVoiceForLanguage_def Let_def split: option.splits list.splits)

text \<open>
  C8, as amended. With voice output disabled \<open>speak\<close> changes nothing. With no voice
  list, or an empty one, \<open>speak\<close> creates no utterance and leaves \<open>currentUtterance\<close>
  as it is; its only effect is the call \<open>synthesis.cancel()\<close> that it makes when
  output is enabled and an utterance is current. The model's \<open>speak\<close> is a total
  function: no step of these paths can throw.
\<close>

theorem speak_without_effect:
  "(\<not> voiceOutputEnabled vc \<longrightarrow> speak text language vc = vc)
   \<and> (voices vc = None \<or> voices vc = Some [] \<longrightarrow>
        speak text language vc =
          (if voiceOutputEnabled vc \<and> has_synthesis vc \<and> currentUtterance vc \<noteq> None
           then vc\<lparr>syn_calls := syn_calls vc @ [SynCancel]\<rparr> else vc))"
proof (intro conjI impI)
  assume "\<not> voiceOutputEnabled vc"
  then show "speak text language vc = vc"
    by (simp add: speak_def)
next
  assume nv: "voices vc = None \<or> voices vc = Some []"
  have g: "getVoiceForLanguage v l = None" if "voices v = voices vc" for v l
    using nv that by (simp add: getVoiceForLanguage_None_iff)
  show "speak text language vc =
      (if voiceOutputEnabled vc \<and> has_synthesis vc \<and> currentUtterance vc \<noteq> None
       then vc\<lparr>syn_calls := syn_calls vc @ [SynCancel]\<rparr> else vc)"
  proof (cases "currentUtterance vc")
    case None
    then show ?thesis by (simp add: speak_def Let_def g)
  next
    case (Some u)
    then show ?thesis by (simp add: speak_def Let_def g)
  qed
qed

text \<open>
  C8 as stated fails: after a first utterance the platform reports an empty voice list;
  the next \<open>speak\<close> finds no voice and yet calls \<open>synthesis.cancel()\<close>.
\<close>

theorem speak_without_voice_counterexample:
  "VoiceChat_new True True [en_voice] = Inr sample_voicechat
   \<and> voiceOutputEnabled voices_lost
   \<and> getVoiceForLanguage voices_lost (js ''en'') = None
   \<and> voices voices_lost = Some []
   \<and> speak (js ''b'') None voices_lost \<noteq> voices_lost
   \<and> syn_calls (speak (js ''b'') None voices_lost) = syn_calls voices_lost @ [SynCancel]"
  by (simp add: sample_voicechat_new)
    (simp add: voices_lost_def sample_voicechat_def speak_def getVoiceForLanguage_def
      loadVoices_def en_voice_def startsWith_def js_def Let_def)

theorem speak_without_effect_witness:
  "\<not> voiceOutputEnabled (setVoiceOutputEnabled False sample_voicechat)
   \<and> speak (js ''b'') None (setVoiceOutputEnabled False sample_voicechat)
       = setVoiceOutputEnabled False sample_voicechat
   \<and> voices voices_lost = Some []
   \<and> speak (js ''b'') None voices_lost = voices_lost\<lparr>syn_calls := syn_calls voices_lost @ [SynCancel]\<rparr>"
proof -
  have 1: "\<not> voiceOutputEnabled (setVoiceOutputEnabled False sample_voicechat)"
    by (simp add: setVoiceOutputEnabled_def stopSpeaking_def sample_voicechat_def)
  have 2: "voices voices_lost = Some []"
    by (simp add: voices_lost_def sample_voicechat_def speak_def getVoiceForLanguage_def
      loadVoices_def en_voice_def startsWith_def js_def Let_def)
  have 3: "voiceOutputEnabled voices_lost \<and> has_synthesis voices_lost
      \<and> currentUtterance voices_lost \<noteq> None"
    by (simp add: voices_lost_def sample_voicechat_def speak_def getVoiceForLanguage_def
      loadVoices_def en_voice_def startsWith_def js_def Let_def)
  from speak_without_effect [of "setVoiceOutputEnabled False sample_voicechat" "js ''b''" None]
    speak_without_effect [of voices_lost "js ''b''" None] 1 2 3
  show ?thesis by simp
qed

end
